theory Spec2Isabelle
  imports Complex_Main
begin

section \<open>Data model of \<open>app/main.py\<close>\<close>

text \<open>
  \<open>class Item(BaseModel)\<close>: a required name, an optional description, a required
  price and an optional tax. The handlers only store and return items and never compute
  with \<open>price\<close> or \<open>tax\<close>, so the representation of Python's \<open>float\<close> is left as the
  type parameter \<open>'f\<close>: every statement below holds for any choice of it.
\<close>

record 'f Item =
  name :: string
  description :: "string option"
  price :: 'f
  tax :: "'f option"

text \<open>\<open>class HealthResponse(BaseModel)\<close>.\<close>

record HealthResponse =
  status :: string
  version :: string
  environment :: string

text \<open>
  Exceptions are values, and a handler that can raise returns \<open>exception + 'a\<close> with
  \<open>Inl\<close> for the exception: \<open>raise HTTPException(status_code=..., detail=...)\<close>, and
  the \<open>KeyError\<close> of reading a \<open>dict\<close> at a key it does not hold.
\<close>

datatype exception = HTTPException (status_code: int) (detail: string) | KeyError int

subsection \<open>Python's \<open>dict\<close>\<close>

text \<open>
  A \<open>dict\<close> keeps its entries in insertion order, which \<open>list_items\<close> and
  \<open>max(items_db.keys(), ...)\<close> iterate. It is modelled as the list of its entries in
  that order. The four dictionary operations the handlers use:
  \<^item> \<open>k in d\<close> is \<open>dict_contains d k\<close>;
  \<^item> \<open>d[k]\<close>, read under the guard \<open>k in d\<close>, is \<open>dict_get d k\<close> (\<open>None\<close> when absent);
  \<^item> \<open>d[k] = v\<close> is \<open>dict_set d k v\<close>: an existing key keeps its position and gets the
    new value, a new key is appended;
  \<^item> \<open>del d[k]\<close>, run under the guard \<open>k in d\<close>, is \<open>dict_del d k\<close>.
\<close>

type_synonym ('k, 'v) dict = "('k \<times> 'v) list"

definition keys :: "('k, 'v) dict \<Rightarrow> 'k list" where
  "keys d = map fst d"

definition dict_values :: "('k, 'v) dict \<Rightarrow> 'v list" where
  "dict_values d = map snd d"

definition dict_contains :: "('k, 'v) dict \<Rightarrow> 'k \<Rightarrow> bool" where
  "dict_contains d k = (k \<in> set (keys d))"

fun dict_get :: "('k, 'v) dict \<Rightarrow> 'k \<Rightarrow> 'v option" where
  "dict_get [] k = None"
| "dict_get ((k', v) # d) k = (if k' = k then Some v else dict_get d k)"

fun dict_set :: "('k, 'v) dict \<Rightarrow> 'k \<Rightarrow> 'v \<Rightarrow> ('k, 'v) dict" where
  "dict_set [] k v = [(k, v)]"
| "dict_set ((k', v') # d) k v =
     (if k' = k then (k, v) # d else (k', v') # dict_set d k v)"

fun dict_del :: "('k, 'v) dict \<Rightarrow> 'k \<Rightarrow> ('k, 'v) dict" where
  "dict_del [] k = []"
| "dict_del ((k', v') # d) k = (if k' = k then dict_del d k else (k', v') # dict_del d k)"

text \<open>
  \<open>max(iterable, default=d)\<close>: the default for an empty iterable, otherwise the largest
  element, found by one pass that keeps the larger of the running maximum and the next
  element.
\<close>

fun py_max :: "int list \<Rightarrow> int \<Rightarrow> int" where
  "py_max [] d = d"
| "py_max (k # ks) d = fold max ks k"

subsection \<open>Process state\<close>

text \<open>
  The module's mutable state: the global \<open>items_db: Dict[int, Item] = {}\<close> and what the
  handlers have passed to \<open>logger.info\<close>. A log record keeps the values interpolated into
  the message (\<open>f"Created item {new_id}: {item.name}"\<close> and so on) rather than the
  rendered text.
\<close>

datatype log_record = Created int string | Updated int string | Deleted int

record 'f state =
  items_db :: "(int, 'f Item) dict"
  logger :: "log_record list"

definition init :: "'f state" where
  "init = \<lparr>items_db = [], logger = []\<rparr>"

definition info :: "log_record \<Rightarrow> 'f state \<Rightarrow> 'f state" where
  "info r s = s\<lparr>logger := logger s @ [r]\<rparr>"

section \<open>The request handlers\<close>

text \<open>
  Each handler takes its arguments and the state and returns its result with the state it
  leaves behind. A raised exception leaves whatever state the handler had reached; every
  \<open>raise\<close> of the source comes before the first mutation.
\<close>

definition root_endpoint :: "(string, string) dict" where
  "root_endpoint = [(''message'', ''Welcome to Secure Docker CI Pipeline Demo''),
                    (''docs'', ''/docs''),
                    (''health'', ''/health'')]"

text \<open>\<open>os.getenv(key, default)\<close> on the process environment \<open>environ\<close>.\<close>

definition getenv :: "(string \<rightharpoonup> string) \<Rightarrow> string \<Rightarrow> string \<Rightarrow> string" where
  "getenv environ key dflt = (case environ key of None \<Rightarrow> dflt | Some v \<Rightarrow> v)"

definition health_check :: "(string \<rightharpoonup> string) \<Rightarrow> HealthResponse" where
  "health_check environ =
     \<lparr>status = ''healthy'',
      version = ''1.0.0'',
      environment = getenv environ ''ENVIRONMENT'' ''production''\<rparr>"

definition list_items :: "'f state \<Rightarrow> 'f Item list \<times> 'f state" where
  "list_items s = (dict_values (items_db s), s)"

definition get_item :: "int \<Rightarrow> 'f state \<Rightarrow> (exception + 'f Item) \<times> 'f state" where
  "get_item item_id s =
     (if \<not> dict_contains (items_db s) item_id
      then (Inl (HTTPException 404 ''Item not found''), s)
      else (case dict_get (items_db s) item_id of
              Some item \<Rightarrow> (Inr item, s)
            | None \<Rightarrow> (Inl (KeyError item_id), s)))"

text \<open>
  The local \<open>new_id = max(items_db.keys(), default=0) + 1\<close> of \<open>create_item\<close>, as a
  function of the dictionary it is computed from.
\<close>

definition new_id :: "(int, 'v) dict \<Rightarrow> int" where
  "new_id d = py_max (keys d) 0 + 1"

definition create_item :: "'f Item \<Rightarrow> 'f state \<Rightarrow> 'f Item \<times> 'f state" where
  "create_item item s =
     (let n = new_id (items_db s);
          s1 = s\<lparr>items_db := dict_set (items_db s) n item\<rparr>;
          s2 = info (Created n (name item)) s1
      in (item, s2))"

definition update_item ::
    "int \<Rightarrow> 'f Item \<Rightarrow> 'f state \<Rightarrow> (exception + 'f Item) \<times> 'f state" where
  "update_item item_id item s =
     (if \<not> dict_contains (items_db s) item_id
      then (Inl (HTTPException 404 ''Item not found''), s)
      else (let s1 = s\<lparr>items_db := dict_set (items_db s) item_id item\<rparr>;
                s2 = info (Updated item_id (name item)) s1
            in (Inr item, s2)))"

definition delete_item ::
    "int \<Rightarrow> 'f state \<Rightarrow> (exception + (string, string) dict) \<times> 'f state" where
  "delete_item item_id s =
     (if \<not> dict_contains (items_db s) item_id
      then (Inl (HTTPException 404 ''Item not found''), s)
      else (let s1 = s\<lparr>items_db := dict_del (items_db s) item_id\<rparr>;
                s2 = info (Deleted item_id) s1
            in (Inr [(''message'', ''Item deleted successfully'')], s2)))"


section \<open>Sequences of requests\<close>

text \<open>
  The requests a client can send to the item routes, and the states the service can be in:
  those that a list of requests, handled one after the other, leads to from the state the
  module starts in.
\<close>

datatype 'f request =
    ListItems
  | GetItem int
  | CreateItem "'f Item"
  | UpdateItem int "'f Item"
  | DeleteItem int

fun handle :: "'f request \<Rightarrow> 'f state \<Rightarrow> 'f state" where
  "handle ListItems s = snd (list_items s)"
| "handle (GetItem item_id) s = snd (get_item item_id s)"
| "handle (CreateItem item) s = snd (create_item item s)"
| "handle (UpdateItem item_id item) s = snd (update_item item_id item s)"
| "handle (DeleteItem item_id) s = snd (delete_item item_id s)"

definition run :: "'f request list \<Rightarrow> 'f state \<Rightarrow> 'f state" where
  "run rs s = fold handle rs s"

text \<open>
  Posting a list of items one after the other; beside the final state, the ID each call
  of \<open>create_item\<close> stored its item under.
\<close>

fun create_all :: "'f Item list \<Rightarrow> 'f state \<Rightarrow> int list \<times> 'f state" where
  "create_all [] s = ([], s)"
| "create_all (item # items) s =
     (let n = new_id (items_db s);
          (ns, s') = create_all items (snd (create_item item s))
      in (n # ns, s'))"

section \<open>Sample data\<close>

text \<open>
  Items that the repository's test suite posts, with \<open>real\<close> prices, and a state whose
  store is the one that three creates followed by deleting item 2 lead to.
\<close>

definition laptop :: "real Item" where
  "laptop = \<lparr>name = ''Laptop'', description = Some ''High-performance laptop'',
             price = 1299.99, tax = Some 130\<rparr>"

definition phone :: "real Item" where
  "phone = \<lparr>name = ''Phone'', description = None, price = 699.99, tax = None\<rparr>"

definition smartphone :: "real Item" where
  "smartphone = \<lparr>name = ''Smartphone'', description = Some ''Latest model'',
                 price = 799.99, tax = Some 80\<rparr>"

definition minimal_item :: "real Item" where
  "minimal_item = \<lparr>name = ''Minimal Item'', description = None, price = 9.99, tax = None\<rparr>"

definition two_items :: "real state" where
  "two_items = \<lparr>items_db = [(1, laptop), (3, minimal_item)], logger = []\<rparr>"

section \<open>Dictionary lemmas\<close>

lemma dict_get_None_iff: "dict_get d k = None \<longleftrightarrow> k \<notin> set (keys d)"
  by (induction d k rule: dict_get.induct) (auto simp: keys_def)

lemma dict_get_set: "dict_get (dict_set d k v) k' = (if k' = k then Some v else dict_get d k')"
  by (induction d k v rule: dict_set.induct) auto

lemma dict_get_del: "dict_get (dict_del d k) k' = (if k' = k then None else dict_get d k')"
  by (induction d k rule: dict_del.induct) auto

lemma keys_dict_set: "set (keys (dict_set d k v)) = insert k (set (keys d))"
  by (induction d k v rule: dict_set.induct) (auto simp: keys_def)

lemma keys_dict_del: "set (keys (dict_del d k)) = set (keys d) - {k}"
  by (induction d k rule: dict_del.induct) (auto simp: keys_def)

text \<open>A dictionary has each key once; assignment and deletion keep it so.\<close>

lemma keys_dict_set_list:
  "keys (dict_set d k v) = (if k \<in> set (keys d) then keys d else keys d @ [k])"
  by (induction d k v rule: dict_set.induct) (auto simp: keys_def)

lemma distinct_dict_set: "distinct (keys d) \<Longrightarrow> distinct (keys (dict_set d k v))"
  by (simp add: keys_dict_set_list)

lemma distinct_dict_del: "distinct (keys d) \<Longrightarrow> distinct (keys (dict_del d k))"
proof (induction d k rule: dict_del.induct)
  case (1 k)
  show ?case by (simp add: keys_def)
next
  case (2 k' v' d k)
  from "2.prems" have tail: "distinct (keys d)" and head: "k' \<notin> set (keys d)"
    by (simp_all add: keys_def)
  have "k' \<notin> set (keys (dict_del d k))"
    using head by (simp add: keys_dict_del)
  moreover have "keys ((k', v') # dict_del d k) = k' # keys (dict_del d k)"
    by (simp add: keys_def)
  ultimately show ?case
    using "2.IH" tail by simp
qed

lemma dict_set_fresh: "k \<notin> set (keys d) \<Longrightarrow> dict_set d k v = d @ [(k, v)]"
  by (induction d k v rule: dict_set.induct) (auto simp: keys_def)

lemma py_max_Max: "ks \<noteq> [] \<Longrightarrow> py_max ks d = Max (set ks)"
  by (cases ks) (simp_all add: Max.set_eq_fold [symmetric])

lemma py_max_ge: "k \<in> set ks \<Longrightarrow> k \<le> py_max ks d"
proof -
  assume k: "k \<in> set ks"
  then have "ks \<noteq> []" by auto
  then have "py_max ks d = Max (set ks)" by (rule py_max_Max)
  with k show ?thesis by simp
qed

lemma new_id_fresh: "new_id d \<notin> set (keys d)"
proof
  assume "new_id d \<in> set (keys d)"
  then have "new_id d \<le> py_max (keys d) 0" by (rule py_max_ge)
  then show False by (simp add: new_id_def)
qed

lemma new_id_Max:
  "new_id d = (if d = [] then 0 else Max (set (keys d))) + 1"
  by (cases "d = []") (simp_all add: new_id_def keys_def py_max_Max)

lemma items_db_info: "items_db (info r s) = items_db s"
  by (simp add: info_def)

text \<open>The read \<open>items_db[item_id]\<close> of \<open>get_item\<close> is guarded: it never raises \<open>KeyError\<close>.\<close>

lemma get_item_no_KeyError: "fst (get_item item_id s) \<noteq> Inl (KeyError k)"
  by (auto simp: get_item_def dict_contains_def dict_get_None_iff split: option.split)

lemma items_db_create:
  "items_db (snd (create_item item s)) = items_db s @ [(new_id (items_db s), item)]"
  by (simp add: create_item_def Let_def items_db_info dict_set_fresh new_id_fresh)

lemma items_db_update:
  "items_db (snd (update_item i item s)) =
     (if dict_contains (items_db s) i then dict_set (items_db s) i item else items_db s)"
  by (simp add: update_item_def Let_def items_db_info)

lemma items_db_delete:
  "items_db (snd (delete_item i s)) =
     (if dict_contains (items_db s) i then dict_del (items_db s) i else items_db s)"
  by (simp add: delete_item_def Let_def items_db_info)

lemma new_id_append: "new_id (d @ [(new_id d, v)]) = new_id d + 1"
proof -
  let ?n = "new_id d"
  have "k \<le> ?n" if "k \<in> set (keys d)" for k
    using py_max_ge [OF that, of 0] by (simp add: new_id_def)
  then have "\<forall>k \<in> set (keys (d @ [(?n, v)])). k \<le> ?n"
    by (auto simp: keys_def)
  moreover have "?n \<in> set (keys (d @ [(?n, v)]))"
    by (simp add: keys_def)
  ultimately have "Max (set (keys (d @ [(?n, v)]))) = ?n"
    by (intro Max_eqI) auto
  then show ?thesis
    by (simp add: new_id_Max [of "d @ [(?n, v)]"])
qed

lemma create_all_ids:
  "fst (create_all items s)
     = [new_id (items_db s) .. new_id (items_db s) + int (length items) - 1]"
proof (induction items arbitrary: s)
  case Nil
  show ?case by simp
next
  case (Cons item items)
  let ?n = "new_id (items_db s)"
  let ?s1 = "snd (create_item item s)"
  have next_id: "new_id (items_db ?s1) = ?n + 1"
    by (simp add: items_db_create new_id_append)
  have "fst (create_all (item # items) s) = ?n # fst (create_all items ?s1)"
    by (simp add: Let_def split: prod.split)
  also have "\<dots> = ?n # [?n + 1 .. ?n + 1 + int (length items) - 1]"
    by (simp add: Cons.IH next_id)
  also have "\<dots> = [?n .. ?n + int (length (item # items)) - 1]"
    by (simp add: upto_rec1 [of ?n])
  finally show ?case .
qed

lemma create_all_store:
  "items_db (snd (create_all items s)) = items_db s @ zip (fst (create_all items s)) items"
proof (induction items arbitrary: s)
  case Nil
  show ?case by simp
next
  case (Cons item items)
  let ?s1 = "snd (create_item item s)"
  have "items_db (snd (create_all (item # items) s)) = items_db (snd (create_all items ?s1))"
    by (simp add: Let_def split: prod.split)
  also have "\<dots> = items_db ?s1 @ zip (fst (create_all items ?s1)) items"
    by (rule Cons.IH)
  also have "\<dots> = items_db s @ zip (fst (create_all (item # items) s)) (item # items)"
    by (simp add: items_db_create Let_def split: prod.split)
  finally show ?case .
qed

lemma keys_empty_iff: "keys d = [] \<longleftrightarrow> d = []"
  by (simp add: keys_def)

lemma new_id_after_del_Max:
  assumes "d \<noteq> []" and "m = Max (set (keys d))"
  shows "new_id (dict_del d m) = m \<longleftrightarrow> m - 1 \<in> set (keys d) \<or> set (keys d) = {1}"
proof -
  let ?K = "set (keys d)"
  let ?R = "?K - {m}"
  have K: "finite ?K" "?K \<noteq> {}"
    using assms(1) by (simp_all add: keys_empty_iff)
  then have m_in: "m \<in> ?K" and m_ge: "\<And>k. k \<in> ?K \<Longrightarrow> k \<le> m"
    using assms(2) by simp_all
  have R: "set (keys (dict_del d m)) = ?R"
    by (rule keys_dict_del)
  show ?thesis
  proof (cases "?R = {}")
    case True
    then have "set (keys (dict_del d m)) = {}"
      using R by simp
    then have "dict_del d m = []"
      by (simp add: keys_empty_iff)
    then have "new_id (dict_del d m) = 1"
      by (simp add: new_id_def keys_def)
    moreover have "?K = {m}"
      using True m_in by auto
    ultimately show ?thesis by auto
  next
    case False
    then have ne: "dict_del d m \<noteq> []"
      using R by (auto simp: keys_def)
    have finR: "finite ?R" by simp
    have top_in: "Max ?R \<in> ?R"
      using finR False by (rule Max_in)
    then have top_less: "Max ?R < m"
      using m_ge [of "Max ?R"] by auto
    have new: "new_id (dict_del d m) = Max ?R + 1"
      using ne by (simp add: new_id_Max R)
    have "Max ?R + 1 = m \<longleftrightarrow> m - 1 \<in> ?K"
    proof
      assume "Max ?R + 1 = m"
      then have "m - 1 = Max ?R" by simp
      with top_in show "m - 1 \<in> ?K" by simp
    next
      assume "m - 1 \<in> ?K"
      then have "m - 1 \<in> ?R" by simp
      then have "m - 1 \<le> Max ?R"
        using finR by (rule Max_ge [rotated])
      with top_less show "Max ?R + 1 = m" by simp
    qed
    moreover have "?K \<noteq> {1}"
      using False m_in by auto
    ultimately show ?thesis
      by (simp add: new)
  qed
qed

lemma new_id_positive:
  assumes "\<forall>k \<in> set (keys d). 0 < k"
  shows "1 \<le> new_id d"
proof (cases "d = []")
  case True
  then show ?thesis by (simp add: new_id_def keys_def)
next
  case False
  then have "Max (set (keys d)) \<in> set (keys d)"
    by (intro Max_in) (simp_all add: keys_empty_iff)
  with assms have "0 < Max (set (keys d))" by blast
  with False show ?thesis by (simp add: new_id_Max)
qed

lemma keys_after_update:
  "set (keys (items_db (snd (update_item i item s)))) = set (keys (items_db s))"
  by (auto simp: items_db_update keys_dict_set dict_contains_def)

lemma keys_after_delete:
  "set (keys (items_db (snd (delete_item i s)))) \<subseteq> set (keys (items_db s))"
  by (auto simp: items_db_delete keys_dict_del)

lemma keys_after_create:
  "set (keys (items_db (snd (create_item item s))))
     = insert (new_id (items_db s)) (set (keys (items_db s)))"
  by (auto simp: items_db_create keys_def)

lemma handle_keeps_positive:
  assumes "\<forall>k \<in> set (keys (items_db s)). 0 < k"
  shows "\<forall>k \<in> set (keys (items_db (handle r s))). 0 < k"
proof (cases r)
  case ListItems
  with assms show ?thesis by (simp add: list_items_def)
next
  case (GetItem i)
  with assms show ?thesis by (simp add: get_item_def split: option.split)
next
  case (CreateItem item)
  with assms new_id_positive [OF assms] show ?thesis
    by (simp add: keys_after_create)
next
  case (UpdateItem i item)
  with assms show ?thesis by (simp add: keys_after_update)
next
  case (DeleteItem i)
  with assms keys_after_delete [of i s] show ?thesis by auto
qed

lemma run_keeps_positive:
  "\<forall>k \<in> set (keys (items_db s)). 0 < k
     \<Longrightarrow> \<forall>k \<in> set (keys (items_db (run rs s))). 0 < k"
  unfolding run_def
proof (induction rs arbitrary: s)
  case Nil
  then show ?case by simp
next
  case (Cons r rs)
  from Cons.prems have "\<forall>k \<in> set (keys (items_db (handle r s))). 0 < k"
    by (rule handle_keeps_positive)
  then have "\<forall>k \<in> set (keys (items_db (fold handle rs (handle r s)))). 0 < k"
    by (rule Cons.IH)
  then show ?case by simp
qed

section \<open>Properties of the handlers\<close>

text \<open>
  C1. In every state, \<open>create_item\<close> computes the new ID as the largest existing ID (0 for
  an empty store) plus one, stores the item under that ID as a new last entry, and returns
  the item; looking the new ID up in the store it leaves gives the item passed in.
\<close>

theorem create_item_max_plus_one:
  "new_id (items_db s) = (if items_db s = [] then 0 else Max (set (keys (items_db s)))) + 1
   \<and> fst (create_item item s) = item
   \<and> items_db (snd (create_item item s)) = items_db s @ [(new_id (items_db s), item)]
   \<and> dict_get (items_db (snd (create_item item s))) (new_id (items_db s)) = Some item"
proof -
  have "dict_get (items_db s @ [(new_id (items_db s), item)]) (new_id (items_db s)) = Some item"
    using dict_get_set [of "items_db s" "new_id (items_db s)" item "new_id (items_db s)"]
    by (simp add: dict_set_fresh new_id_fresh)
  moreover have "fst (create_item item s) = item"
    by (simp add: create_item_def Let_def)
  ultimately show ?thesis
    by (simp add: new_id_Max [symmetric] items_db_create)
qed


theorem create_item_max_plus_one_witness:
  "new_id (items_db two_items) = 4
   \<and> fst (create_item phone two_items) = phone
   \<and> items_db (snd (create_item phone two_items))
       = [(1, laptop), (3, minimal_item), (4, phone)]
   \<and> dict_get (items_db (snd (create_item phone two_items))) 4 = Some phone"
  using create_item_max_plus_one [of two_items phone]
  by (simp add: two_items_def keys_def)

text \<open>
  C2. In every state and for every item, \<open>create_item\<close> followed by \<open>get_item\<close> at the ID
  that the create assigned returns the item, and the read leaves the state as it was.
\<close>

theorem create_then_get:
  "get_item (new_id (items_db s)) (snd (create_item item s))
     = (Inr item, snd (create_item item s))"
proof -
  let ?n = "new_id (items_db s)"
  let ?d = "items_db (snd (create_item item s))"
  have d: "?d = dict_set (items_db s) ?n item"
    by (simp add: items_db_create dict_set_fresh new_id_fresh)
  have "dict_get ?d ?n = Some item"
    by (simp add: d dict_get_set)
  moreover have "dict_contains ?d ?n"
    by (simp add: d dict_contains_def keys_dict_set)
  ultimately show ?thesis
    by (simp add: get_item_def)
qed

theorem create_then_get_witness:
  "new_id (items_db two_items) = 4
   \<and> get_item 4 (snd (create_item phone two_items))
       = (Inr phone, snd (create_item phone two_items))"
  using create_then_get [of two_items phone]
  by (simp add: two_items_def new_id_def keys_def)

text \<open>
  C3. In every state, for an ID that is not a key of the store, \<open>get_item\<close>, \<open>update_item\<close>
  and \<open>delete_item\<close> each raise \<open>HTTPException(status_code=404)\<close> and leave the whole
  state, the store included, as it was, whatever else the store holds.
\<close>

theorem absent_id_not_found:
  assumes "item_id \<notin> set (keys (items_db s))"
  shows "get_item item_id s = (Inl (HTTPException 404 ''Item not found''), s)
       \<and> update_item item_id item s = (Inl (HTTPException 404 ''Item not found''), s)
       \<and> delete_item item_id s = (Inl (HTTPException 404 ''Item not found''), s)"
  using assms
  by (simp add: get_item_def update_item_def delete_item_def dict_contains_def)

theorem absent_id_not_found_witness:
  "999 \<notin> set (keys (items_db two_items))
   \<and> get_item 999 two_items = (Inl (HTTPException 404 ''Item not found''), two_items)
   \<and> update_item 999 phone two_items = (Inl (HTTPException 404 ''Item not found''), two_items)
   \<and> delete_item 999 two_items = (Inl (HTTPException 404 ''Item not found''), two_items)"
proof -
  have absent: "999 \<notin> set (keys (items_db two_items))"
    by (simp add: two_items_def keys_def)
  show ?thesis
    using absent absent_id_not_found [OF absent, of phone] by simp
qed


text \<open>
  C4. From the empty store, posting N items one after the other, with nothing deleted in
  between, assigns the IDs 1, 2, ..., N in that order, and the store then holds the i-th
  item under ID i.
\<close>

theorem create_all_assigns_1_to_N:
  "fst (create_all items init) = [1 .. int (length items)]
   \<and> items_db (snd (create_all items init)) = zip [1 .. int (length items)] items"
proof -
  have start: "new_id (items_db (init :: 'a state)) = 1"
    by (simp add: init_def new_id_def keys_def)
  have ids: "fst (create_all items init) = [1 .. int (length items)]"
    using create_all_ids [of items init] by (simp add: start)
  have "items_db (snd (create_all items init)) = zip (fst (create_all items init)) items"
    using create_all_store [of items init] by (simp add: init_def)
  with ids show ?thesis by simp
qed

theorem create_all_assigns_1_to_N_witness:
  "fst (create_all [laptop, phone, minimal_item] init) = [1, 2, 3]
   \<and> items_db (snd (create_all [laptop, phone, minimal_item] init))
       = [(1, laptop), (2, phone), (3, minimal_item)]"
proof -
  have "[1 .. int (length [laptop, phone, minimal_item])] = [1, 2, 3]"
    by (simp add: upto_rec1)
  then show ?thesis
    using create_all_assigns_1_to_N [of "[laptop, phone, minimal_item]"] by simp
qed

text \<open>
  C5. In every state, for an ID that is a key of the store and any item, \<open>update_item\<close>
  returns the new item, and \<open>get_item\<close> at that ID afterwards returns exactly the new
  item: nothing of the record stored before remains.
\<close>

theorem update_then_get:
  assumes "item_id \<in> set (keys (items_db s))"
  shows "fst (update_item item_id new_item s) = Inr new_item
       \<and> get_item item_id (snd (update_item item_id new_item s))
           = (Inr new_item, snd (update_item item_id new_item s))"
proof -
  let ?d = "items_db (snd (update_item item_id new_item s))"
  have d: "?d = dict_set (items_db s) item_id new_item"
    using assms by (simp add: items_db_update dict_contains_def)
  have "dict_get ?d item_id = Some new_item"
    by (simp add: d dict_get_set)
  moreover have "dict_contains ?d item_id"
    by (simp add: d dict_contains_def keys_dict_set)
  moreover have "fst (update_item item_id new_item s) = Inr new_item"
    using assms by (simp add: update_item_def dict_contains_def Let_def)
  ultimately show ?thesis
    by (simp add: get_item_def)
qed

theorem update_then_get_witness:
  "1 \<in> set (keys (items_db two_items))
   \<and> fst (update_item 1 smartphone two_items) = Inr smartphone
   \<and> get_item 1 (snd (update_item 1 smartphone two_items))
       = (Inr smartphone, snd (update_item 1 smartphone two_items))
   \<and> items_db (snd (update_item 1 smartphone two_items))
       = [(1, smartphone), (3, minimal_item)]"
proof -
  have present: "1 \<in> set (keys (items_db two_items))"
    by (simp add: two_items_def keys_def)
  have "items_db (snd (update_item 1 smartphone two_items))
          = [(1, smartphone), (3, minimal_item)]"
    by (simp add: items_db_update dict_contains_def two_items_def keys_def)
  then show ?thesis
    using present update_then_get [OF present, of smartphone] by simp
qed


text \<open>
  C6, as stated for every non-empty store, does not hold: deleting the highest ID and then
  creating need not store the new item under that ID again. From the empty store, create
  three items and delete item 2, which leaves the IDs 1 and 3. Deleting the highest ID, 3,
  succeeds, and the create that follows stores its item under 2: the store then holds the
  IDs 1 and 2 and nothing under 3.
\<close>

theorem delete_highest_then_create_counterexample:
  "items_db (run [CreateItem laptop, CreateItem phone, CreateItem minimal_item, DeleteItem 2]
               init) = items_db two_items
   \<and> items_db two_items \<noteq> []
   \<and> Max (set (keys (items_db two_items))) = 3
   \<and> fst (delete_item 3 two_items) = Inr [(''message'', ''Item deleted successfully'')]
   \<and> items_db (snd (create_item phone (snd (delete_item 3 two_items))))
       = [(1, laptop), (2, phone)]
   \<and> dict_get (items_db (snd (create_item phone (snd (delete_item 3 two_items))))) 3 = None
   \<and> dict_get (items_db (snd (create_item phone (snd (delete_item 3 two_items))))) 2
       = Some phone
   \<and> dict_get (items_db (snd (create_item phone
         (snd (delete_item (Max (set (keys (items_db two_items)))) two_items)))))
         (Max (set (keys (items_db two_items)))) \<noteq> Some phone"
proof -
  have "items_db (run [CreateItem laptop, CreateItem phone, CreateItem minimal_item,
                       DeleteItem 2] init) = [(1, laptop), (3, minimal_item)]"
    by (simp add: run_def items_db_create items_db_delete init_def new_id_def keys_def
        dict_contains_def)
  moreover have top: "Max (set (keys (items_db two_items))) = 3"
    by (simp add: two_items_def keys_def)
  moreover have "fst (delete_item 3 two_items) = Inr [(''message'', ''Item deleted successfully'')]"
    by (simp add: delete_item_def two_items_def dict_contains_def keys_def Let_def)
  moreover have after: "items_db (snd (create_item phone (snd (delete_item 3 two_items))))
                          = [(1, laptop), (2, phone)]"
    by (simp add: items_db_create items_db_delete two_items_def dict_contains_def keys_def
        new_id_def)
  ultimately show ?thesis
    by (simp add: two_items_def)
qed

text \<open>
  C6, as the code has it. In every non-empty store with highest ID \<open>m\<close>, deleting \<open>m\<close>
  succeeds, and the create that follows returns its item and appends it to what the
  delete left, under the largest remaining ID (0 if none remains) plus one. That ID is
  \<open>m\<close> again, so that the store then holds the new item under \<open>m\<close>, exactly when \<open>m - 1\<close>
  is an ID of the store too, or \<open>m = 1\<close> is the store's only ID; in every other store
  \<open>m\<close> is not an ID of the store after the create.
\<close>

theorem delete_highest_then_create:
  assumes "items_db s \<noteq> []" and "m = Max (set (keys (items_db s)))"
  shows "fst (delete_item m s) = Inr [(''message'', ''Item deleted successfully'')]
       \<and> fst (create_item item (snd (delete_item m s))) = item
       \<and> items_db (snd (create_item item (snd (delete_item m s))))
           = dict_del (items_db s) m @ [(new_id (dict_del (items_db s) m), item)]
       \<and> (new_id (dict_del (items_db s) m) = m
            \<longleftrightarrow> m - 1 \<in> set (keys (items_db s)) \<or> set (keys (items_db s)) = {1})
       \<and> (dict_get (items_db (snd (create_item item (snd (delete_item m s))))) m = Some item
            \<longleftrightarrow> m - 1 \<in> set (keys (items_db s)) \<or> set (keys (items_db s)) = {1})
       \<and> (m \<in> set (keys (items_db (snd (create_item item (snd (delete_item m s))))))
            \<longleftrightarrow> m - 1 \<in> set (keys (items_db s)) \<or> set (keys (items_db s)) = {1})"
proof -
  let ?D = "dict_del (items_db s) m"
  let ?n = "new_id ?D"
  let ?s2 = "snd (create_item item (snd (delete_item m s)))"
  let ?reused = "m - 1 \<in> set (keys (items_db s)) \<or> set (keys (items_db s)) = {1}"
  have "Max (set (keys (items_db s))) \<in> set (keys (items_db s))"
    using assms(1) by (intro Max_in) (simp_all add: keys_empty_iff)
  then have present: "dict_contains (items_db s) m"
    by (simp add: assms(2) dict_contains_def)
  then have deleted: "items_db (snd (delete_item m s)) = ?D"
    by (simp add: items_db_delete)
  have message: "fst (delete_item m s) = Inr [(''message'', ''Item deleted successfully'')]"
    using present by (simp add: delete_item_def Let_def)
  have returned: "fst (create_item item (snd (delete_item m s))) = item"
    by (simp add: create_item_def Let_def)
  have store: "items_db ?s2 = ?D @ [(?n, item)]"
    by (simp add: items_db_create deleted)
  have assigned: "?n = m \<longleftrightarrow> ?reused"
    using assms by (rule new_id_after_del_Max)
  have as_set: "items_db ?s2 = dict_set ?D ?n item"
    by (simp add: store dict_set_fresh new_id_fresh)
  have "dict_get (items_db ?s2) m = (if m = ?n then Some item else None)"
    by (simp add: as_set dict_get_set dict_get_del)
  then have lookup: "dict_get (items_db ?s2) m = Some item \<longleftrightarrow> ?reused"
    using assigned by auto
  have "set (keys (items_db ?s2)) = insert ?n (set (keys (items_db s)) - {m})"
    by (simp add: as_set keys_dict_set keys_dict_del)
  then have "m \<in> set (keys (items_db ?s2)) \<longleftrightarrow> ?n = m"
    by (simp add: eq_commute)
  also have "\<dots> \<longleftrightarrow> ?reused"
    by (rule assigned)
  finally have member: "m \<in> set (keys (items_db ?s2)) \<longleftrightarrow> ?reused" .
  show ?thesis
    by (intro conjI message returned store assigned lookup member)
qed

theorem delete_highest_then_create_witness:
  "items_db (snd (create_item phone two_items)) \<noteq> []
   \<and> 4 = Max (set (keys (items_db (snd (create_item phone two_items)))))
   \<and> 4 - 1 \<in> set (keys (items_db (snd (create_item phone two_items))))
   \<and> items_db (snd (create_item smartphone
         (snd (delete_item 4 (snd (create_item phone two_items))))))
       = [(1, laptop), (3, minimal_item), (4, smartphone)]
   \<and> dict_get (items_db (snd (create_item smartphone
         (snd (delete_item 4 (snd (create_item phone two_items))))))) 4 = Some smartphone"
proof -
  let ?s = "snd (create_item phone two_items)"
  have db: "items_db ?s = [(1, laptop), (3, minimal_item), (4, phone)]"
    by (simp add: items_db_create two_items_def new_id_def keys_def)
  have nonempty: "items_db ?s \<noteq> []"
    by (simp add: db)
  have top: "4 = Max (set (keys (items_db ?s)))"
    by (simp add: db keys_def)
  have below: "4 - 1 \<in> set (keys (items_db ?s))"
    by (simp add: db keys_def)
  have "dict_del (items_db ?s) 4 = [(1, laptop), (3, minimal_item)]"
    by (simp add: db)
  moreover have "new_id [(1, laptop), (3, minimal_item)] = 4"
    by (simp add: new_id_def keys_def)
  ultimately show ?thesis
    using nonempty top below delete_highest_then_create [OF nonempty top, of smartphone]
    by simp
qed

text \<open>
  C7. In every state, for an ID that is a key of the store, \<open>delete_item\<close> returns the
  confirmation message, and \<open>get_item\<close> at that ID afterwards raises
  \<open>HTTPException(status_code=404)\<close>.
\<close>

theorem delete_then_get:
  assumes "item_id \<in> set (keys (items_db s))"
  shows "fst (delete_item item_id s) = Inr [(''message'', ''Item deleted successfully'')]
       \<and> fst (get_item item_id (snd (delete_item item_id s)))
           = Inl (HTTPException 404 ''Item not found'')"
proof -
  have present: "dict_contains (items_db s) item_id"
    using assms by (simp add: dict_contains_def)
  then have "items_db (snd (delete_item item_id s)) = dict_del (items_db s) item_id"
    by (simp add: items_db_delete)
  then have "\<not> dict_contains (items_db (snd (delete_item item_id s))) item_id"
    by (simp add: dict_contains_def keys_dict_del)
  moreover have "fst (delete_item item_id s)
                   = Inr [(''message'', ''Item deleted successfully'')]"
    using present by (simp add: delete_item_def Let_def)
  ultimately show ?thesis
    by (simp add: get_item_def)
qed

theorem delete_then_get_witness:
  "1 \<in> set (keys (items_db two_items))
   \<and> fst (delete_item 1 two_items) = Inr [(''message'', ''Item deleted successfully'')]
   \<and> items_db (snd (delete_item 1 two_items)) = [(3, minimal_item)]
   \<and> fst (get_item 1 (snd (delete_item 1 two_items)))
       = Inl (HTTPException 404 ''Item not found'')"
proof -
  have present: "1 \<in> set (keys (items_db two_items))"
    by (simp add: two_items_def keys_def)
  have "items_db (snd (delete_item 1 two_items)) = [(3, minimal_item)]"
    by (simp add: items_db_delete two_items_def dict_contains_def keys_def)
  then show ?thesis
    using present delete_then_get [OF present] by simp
qed

text \<open>
  C8. For every process environment, \<open>health_check\<close> returns the status \<open>healthy\<close>, a
  version string that is not empty, and as environment the value of the variable
  \<open>ENVIRONMENT\<close>, or \<open>production\<close> when that variable is not set.
\<close>

theorem health_check_response:
  "status (health_check environ) = ''healthy''
   \<and> version (health_check environ) \<noteq> []
   \<and> environment (health_check environ)
       = (case environ ''ENVIRONMENT'' of None \<Rightarrow> ''production'' | Some v \<Rightarrow> v)"
  by (simp add: health_check_def getenv_def)

theorem health_check_response_witness:
  "status (health_check Map.empty) = ''healthy''
   \<and> environment (health_check Map.empty) = ''production''
   \<and> status (health_check [''ENVIRONMENT'' \<mapsto> ''staging'']) = ''healthy''
   \<and> environment (health_check [''ENVIRONMENT'' \<mapsto> ''staging'']) = ''staging''"
  using health_check_response [of Map.empty]
    health_check_response [of "[''ENVIRONMENT'' \<mapsto> ''staging'']"]
  by simp


text \<open>
  C9. Each mutating handler touches at most one entry of the store, in every state and
  whether it succeeds or raises. \<open>create_item\<close> changes the lookup at the new ID only,
  and the new ID was not a key before, so every entry that existed is as it was.
  \<open>update_item\<close> and \<open>delete_item\<close> leave the lookup at every key other than their
  \<open>item_id\<close> as it was, and after \<open>delete_item\<close> the store has no entry at \<open>item_id\<close>.
\<close>

theorem mutations_touch_one_entry:
  "(k \<noteq> new_id (items_db s) \<longrightarrow>
      dict_get (items_db (snd (create_item item s))) k = dict_get (items_db s) k)
   \<and> new_id (items_db s) \<notin> set (keys (items_db s))
   \<and> (k \<noteq> item_id \<longrightarrow>
      dict_get (items_db (snd (update_item item_id item s))) k = dict_get (items_db s) k)
   \<and> (k \<noteq> item_id \<longrightarrow>
      dict_get (items_db (snd (delete_item item_id s))) k = dict_get (items_db s) k)
   \<and> dict_get (items_db (snd (delete_item item_id s))) item_id = None"
proof -
  have create: "dict_get (items_db (snd (create_item item s))) k = dict_get (items_db s) k"
    if "k \<noteq> new_id (items_db s)"
  proof -
    have "items_db (snd (create_item item s))
            = dict_set (items_db s) (new_id (items_db s)) item"
      by (simp add: items_db_create dict_set_fresh new_id_fresh)
    with that show ?thesis by (simp add: dict_get_set)
  qed
  have update: "dict_get (items_db (snd (update_item item_id item s))) k
                  = dict_get (items_db s) k" if "k \<noteq> item_id"
    using that by (simp add: items_db_update dict_get_set)
  have delete: "dict_get (items_db (snd (delete_item item_id s))) k
                  = dict_get (items_db s) k" if "k \<noteq> item_id"
    using that by (simp add: items_db_delete dict_get_del)
  have gone: "dict_get (items_db (snd (delete_item item_id s))) item_id = None"
    by (simp add: items_db_delete dict_get_None_iff dict_contains_def keys_dict_del)
  from create update delete gone new_id_fresh [of "items_db s"] show ?thesis
    by blast
qed

theorem mutations_touch_one_entry_witness:
  "1 \<noteq> new_id (items_db two_items)
   \<and> (1::int) \<noteq> 3
   \<and> dict_get (items_db two_items) 1 = Some laptop
   \<and> dict_get (items_db (snd (create_item phone two_items))) 1 = Some laptop
   \<and> dict_get (items_db (snd (update_item 3 phone two_items))) 1 = Some laptop
   \<and> dict_get (items_db (snd (delete_item 3 two_items))) 1 = Some laptop
   \<and> dict_get (items_db (snd (delete_item 3 two_items))) 3 = None"
proof -
  have fresh: "1 \<noteq> new_id (items_db two_items)"
    by (simp add: two_items_def new_id_def keys_def)
  have before: "dict_get (items_db two_items) 1 = Some laptop"
    by (simp add: two_items_def)
  show ?thesis
    using fresh before mutations_touch_one_entry [of 1 two_items phone 3] by simp
qed

text \<open>
  C10. In every state that a sequence of requests leads to from the initial state with
  its empty store, every ID in the store is strictly positive, and the ID the next create
  would assign is at least 1. In every state at all, the store after \<open>update_item\<close> has
  the IDs it had before, and the store after \<open>delete_item\<close> has no ID it did not have
  before.
\<close>

theorem reachable_ids_positive:
  "(\<forall>k \<in> set (keys (items_db (run rs init))). 0 < k)
   \<and> 1 \<le> new_id (items_db (run rs init))
   \<and> set (keys (items_db (snd (update_item item_id item s)))) = set (keys (items_db s))
   \<and> set (keys (items_db (snd (delete_item item_id s)))) \<subseteq> set (keys (items_db s))"
proof -
  have "\<forall>k \<in> set (keys (items_db (init :: 'a state))). 0 < k"
    by (simp add: init_def keys_def)
  then have positive: "\<forall>k \<in> set (keys (items_db (run rs (init :: 'a state)))). 0 < k"
    by (rule run_keeps_positive)
  then have "1 \<le> new_id (items_db (run rs (init :: 'a state)))"
    by (rule new_id_positive)
  with positive show ?thesis
    by (simp add: keys_after_update keys_after_delete)
qed

theorem reachable_ids_positive_witness:
  "items_db (run [CreateItem laptop, CreateItem phone, CreateItem minimal_item, DeleteItem 2,
                  UpdateItem 3 smartphone, GetItem 7] init)
     = [(1, laptop), (3, smartphone)]
   \<and> 0 < (1::int) \<and> 0 < (3::int)
   \<and> 1 \<le> new_id [(1, laptop), (3, smartphone)]"
proof -
  let ?rs = "[CreateItem laptop, CreateItem phone, CreateItem minimal_item, DeleteItem 2,
              UpdateItem 3 smartphone, GetItem 7]"
  have db: "items_db (run ?rs init) = [(1, laptop), (3, smartphone)]"
    by (simp add: run_def items_db_create items_db_delete items_db_update init_def
        new_id_def keys_def dict_contains_def get_item_def)
  show ?thesis
    using reachable_ids_positive [of ?rs 3 smartphone two_items]
    by (simp add: db keys_def)
qed

end
